theory Spec2Isabelle
  imports Complex_Main "HOL-Library.AList" "HOL-Library.FSet" "HOL-Library.Word"
begin

unbundle bit_operations_syntax

section \<open>Marble: power-up pickup and post-reconciliation smoothing\<close>

text \<open>
  A power-up is an object with an identity and a concrete class (its
  \<^verbatim>\<open>constructor\<close>). \<^verbatim>\<open>null\<close> is \<open>None\<close>.
\<close>

record powerUp =
  pu_instance :: nat
  pu_constructor :: string

type_synonym vec3 = "real \<times> real \<times> real"

text \<open>
  The fields of \<^verbatim>\<open>Marble\<close> read or written by \<^verbatim>\<open>pickUpPowerUp\<close>,
  \<^verbatim>\<open>afterReconciliation\<close> and \<^verbatim>\<open>postUpdate\<close>. The orientation type is
  left open; numbers of the physics body are reals. \<open>powerupButtonState\<close> is the
  flag \<^verbatim>\<open>G.menu.hud.setPowerupButtonState\<close> sets.
\<close>

record 'q marble =
  heldPowerUp :: "powerUp option"
  powerupButtonState :: bool
  reconciliationPosition :: vec3
  interpolatedPosition :: vec3
  interpolatedOrientation :: 'q
  interpolationRemaining :: int
  interpolationStrength :: real
  body_position :: vec3
  body_orientation :: 'q
  body_linearVelocity :: vec3

definition pickUpPowerUp :: "powerUp option \<Rightarrow> 'q marble \<Rightarrow> bool \<times> 'q marble" where
  "pickUpPowerUp powerUp m =
     (case powerUp of
        None \<Rightarrow> (False, m)
      | Some p \<Rightarrow>
          (case heldPowerUp m of
             Some h \<Rightarrow>
               if pu_constructor p = pu_constructor h then (False, m)
               else (True, m\<lparr>heldPowerUp := Some p, powerupButtonState := True\<rparr>)
           | None \<Rightarrow> (True, m\<lparr>heldPowerUp := Some p, powerupButtonState := True\<rparr>)))"

subsection \<open>Vector operations of the rendering library\<close>

definition addScaledVector :: "vec3 \<Rightarrow> vec3 \<Rightarrow> real \<Rightarrow> vec3" where
  "addScaledVector a v s =
     (case a of (ax, ay, az) \<Rightarrow> case v of (vx, vy, vz) \<Rightarrow>
        (ax + vx * s, ay + vy * s, az + vz * s))"

definition lerp :: "vec3 \<Rightarrow> vec3 \<Rightarrow> real \<Rightarrow> vec3" where
  "lerp a v alpha =
     (case a of (ax, ay, az) \<Rightarrow> case v of (vx, vy, vz) \<Rightarrow>
        (ax + (vx - ax) * alpha, ay + (vy - ay) * alpha, az + (vz - az) * alpha))"

text \<open>
  The exact distance of two positions. The library computes the distance in double
  precision, where the square of a very small difference is 0, so that its result can be
  0 for two positions that differ: \<^verbatim>\<open>afterReconciliation\<close> below takes the
  library's function as its argument \<open>distance\<close>, and the exact distance stands for it only
  at the concrete marbles of the properties, whose positions are at distance 1.
\<close>

definition distanceTo :: "vec3 \<Rightarrow> vec3 \<Rightarrow> real" where
  "distanceTo a v =
     (case a of (ax, ay, az) \<Rightarrow> case v of (vx, vy, vz) \<Rightarrow>
        sqrt ((ax - vx) ^ 2 + (ay - vy) ^ 2 + (az - vz) ^ 2))"

subsection \<open>Smoothing after a reconciliation\<close>

text \<open>
  \<^verbatim>\<open>afterReconciliation\<close>; \<open>frameGap\<close> is \<^verbatim>\<open>game.state.frameGap\<close>, a field
  of the multiplayer game state, and \<open>distance\<close> the method \<^verbatim>\<open>distanceTo\<close> of the
  library's vectors.
\<close>

definition afterReconciliation :: "(vec3 \<Rightarrow> vec3 \<Rightarrow> real) \<Rightarrow> int \<Rightarrow> 'q marble \<Rightarrow> 'q marble" where
  "afterReconciliation distance frameGap m =
     (let frames = max (frameGap * 2) 20 in
      if interpolationRemaining m > frames then m
      else if distance (reconciliationPosition m) (body_position m) = 0 then m
      else m\<lparr>interpolationRemaining := frames,
             interpolationStrength := 1 - (1 - 0.99) powr (1 / real_of_int frames)\<rparr>)"

text \<open>
  \<^verbatim>\<open>postUpdate\<close>; \<open>rate\<close> is the constant \<^verbatim>\<open>GAME_UPDATE_RATE\<close>, \<open>slerp\<close> the
  quaternion interpolation of the rendering library and \<open>isReconciling\<close> the
  simulator's flag. The post-decrement \<^verbatim>\<open>interpolationRemaining--\<close> happens in
  both branches.
\<close>

definition postUpdate ::
  "real \<Rightarrow> ('q \<Rightarrow> 'q \<Rightarrow> real \<Rightarrow> 'q) \<Rightarrow> bool \<Rightarrow> 'q marble \<Rightarrow> 'q marble" where
  "postUpdate rate slerp isReconciling m =
     (if isReconciling then m
      else if interpolationRemaining m \<le> 0 then
        m\<lparr>interpolationRemaining := interpolationRemaining m - 1,
          interpolatedPosition := body_position m,
          interpolatedOrientation := body_orientation m\<rparr>
      else
        m\<lparr>interpolationRemaining := interpolationRemaining m - 1,
          interpolatedPosition :=
            lerp (addScaledVector (interpolatedPosition m) (body_linearVelocity m) (1 / rate))
              (body_position m) (interpolationStrength m),
          interpolatedOrientation :=
            slerp (interpolatedOrientation m) (body_orientation m) (interpolationStrength m)\<rparr>)"

text \<open>
  The frames that follow a reconciliation. Before each \<^verbatim>\<open>postUpdate\<close> the physics
  step, which is not part of the sources at hand, has given the body the position, the
  orientation and the velocity of that frame; \<open>renderFrames\<close> runs \<^verbatim>\<open>postUpdate\<close>
  outside a reconciliation once for each of these poses, in their order.
\<close>

definition moveBody :: "vec3 \<times> 'q \<times> vec3 \<Rightarrow> 'q marble \<Rightarrow> 'q marble" where
  "moveBody b m =
     (case b of (p, q, v) \<Rightarrow>
        m\<lparr>body_position := p, body_orientation := q, body_linearVelocity := v\<rparr>)"

definition renderFrames ::
  "real \<Rightarrow> ('q \<Rightarrow> 'q \<Rightarrow> real \<Rightarrow> 'q) \<Rightarrow> (vec3 \<times> 'q \<times> vec3) list \<Rightarrow> 'q marble \<Rightarrow> 'q marble" where
  "renderFrames rate slerp bs m =
     fold (\<lambda>b m'. postUpdate rate slerp False (moveBody b m')) bs m"

section \<open>Frame state and rollback\<close>

subsection \<open>Data\<close>

text \<open>
  \<^verbatim>\<open>EntityUpdate\<close>: \<open>u_frame\<close> and \<open>u_state\<close> are its fields \<^verbatim>\<open>frame\<close> and
  \<^verbatim>\<open>state\<close>; a \<^verbatim>\<open>null\<close> state is \<open>None\<close>.
\<close>

record 's entityUpdate =
  updateId :: int
  entityId :: nat
  u_frame :: int
  u_state :: "'s option"

text \<open>\<^verbatim>\<open>AffectionEdge\<close>; an entity reference is the entity's identity.\<close>

record affectionEdge =
  edge_id :: int
  edge_from :: nat
  edge_to :: nat
  edge_frame :: int

text \<open>The frame-stamped messages of the HUD, and the two queues that hold them.\<close>

record hudMessage =
  m_frame :: int
  getMessage :: string

record hud =
  helpMessages :: "hudMessage list"
  alerts :: "hudMessage list"

text \<open>
  An entity, as far as the game state reads it: its id, the three flags, and the rest
  of the object in \<open>ent_body\<close>.
\<close>

record 'b entity =
  ent_id :: nat
  restartable :: bool
  stateNeedsStore :: bool
  internalStateNeedsStore :: bool
  ent_body :: 'b

text \<open>
  The methods of \<^verbatim>\<open>Entity\<close> the game state calls. Each variant of entity
  implements them; they are parameters here. \<open>loadState st frame remote\<close> stands for
  \<^verbatim>\<open>loadState(st, { frame, remote })\<close>.
\<close>

record ('b, 's, 'i) hooks =
  getState :: "'b entity \<Rightarrow> 's"
  getInternalState :: "'b entity \<Rightarrow> 'i"
  getInitialState :: "'b entity \<Rightarrow> 's option"
  loadState :: "'s \<Rightarrow> int \<Rightarrow> bool \<Rightarrow> 'b entity \<Rightarrow> 'b entity"
  loadInternalState :: "'i \<Rightarrow> int \<Rightarrow> 'b entity \<Rightarrow> 'b entity"

text \<open>
  \<^verbatim>\<open>GameState\<close>, together with the two objects it reaches through globals: the
  entity list of the game (\<^verbatim>\<open>game.entities\<close>) and the HUD (\<^verbatim>\<open>G.menu.hud\<close>).
  A \<^verbatim>\<open>DefaultMap\<close> is an association list in insertion order whose missing keys
  read as the empty array.
\<close>

record ('b, 's, 'i) gameState =
  frame :: int
  maxFrame :: int
  restartFrames :: "int list"
  stateHistory :: "(nat \<times> 's entityUpdate list) list"
  internalStateHistory :: "(nat \<times> (int \<times> 'i) list) list"
  affectionGraph :: "affectionEdge list"
  nextUpdateId :: int
  nextAffectionEdgeId :: int
  entities :: "'b entity list"
  the_hud :: hud

datatype error = TypeError

subsection \<open>Helpers of the utility module\<close>

definition Util_last :: "'a list \<Rightarrow> 'a option" where
  "Util_last xs = (if xs = [] then None else Some (last xs))"

definition Util_findLast :: "'a list \<Rightarrow> ('a \<Rightarrow> bool) \<Rightarrow> 'a option" where
  "Util_findLast xs p = find p (rev xs)"

text \<open>
  \<^verbatim>\<open>DefaultMap.get\<close>: the array read. The source's \<^verbatim>\<open>get\<close> also creates the
  entry of a missing key; every write below goes through \<open>AList.update\<close>, which
  appends the entry of a missing key as well.
\<close>

definition dm_get :: "('k \<times> 'v list) list \<Rightarrow> 'k \<Rightarrow> 'v list" where
  "dm_get m k = (case map_of m k of Some v \<Rightarrow> v | None \<Rightarrow> [])"

text \<open>
  The loop \<^verbatim>\<open>while (a.length > 0 && Util.last(a).frame > target) a.pop()\<close>, with
  \<open>fr\<close> reading the frame of an element.
\<close>

definition popAfter :: "('a \<Rightarrow> int) \<Rightarrow> int \<Rightarrow> 'a list \<Rightarrow> 'a list" where
  "popAfter fr target xs = rev (dropWhile (\<lambda>x. fr x > target) (rev xs))"

text \<open>Running a loop body over a list of items, stopping at the first exception.\<close>

fun forEach :: "('a \<Rightarrow> 'st \<Rightarrow> error + 'st) \<Rightarrow> 'a list \<Rightarrow> 'st \<Rightarrow> error + 'st" where
  "forEach body [] s = Inr s"
| "forEach body (x # xs) s =
     (case body x s of Inl e \<Rightarrow> Inl e | Inr s' \<Rightarrow> forEach body xs s')"

subsection \<open>Entities of the game\<close>

text \<open>
  Modelled from the spec: \<^verbatim>\<open>Game.getEntityById\<close> is not part of the sources at
  hand. It returns the entity of the game with that id, or \<^verbatim>\<open>null\<close>.
\<close>

definition getEntityById :: "('b, 's, 'i) gameState \<Rightarrow> nat \<Rightarrow> 'b entity option" where
  "getEntityById s k = find (\<lambda>e. ent_id e = k) (entities s)"

text \<open>A method call that mutates the entity found by \<open>getEntityById\<close>.\<close>

fun mutateFirst :: "nat \<Rightarrow> ('b entity \<Rightarrow> 'b entity) \<Rightarrow> 'b entity list \<Rightarrow> 'b entity list" where
  "mutateFirst k f [] = []"
| "mutateFirst k f (e # es) = (if ent_id e = k then f e # es else e # mutateFirst k f es)"

subsection \<open>Operations of the game state\<close>

text \<open>
  The getter \<^verbatim>\<open>lastRestartFrame\<close>. \<open>None\<close> is \<^verbatim>\<open>-Infinity\<close>; the loop breaks at
  the first restart frame beyond the current frame.
\<close>

fun lastRestartFrame_loop :: "int \<Rightarrow> int list \<Rightarrow> int option \<Rightarrow> int option" where
  "lastRestartFrame_loop fr [] restartFrame = restartFrame"
| "lastRestartFrame_loop fr (r # rs) restartFrame =
     (if r > fr then restartFrame else lastRestartFrame_loop fr rs (Some r))"

definition lastRestartFrame :: "('b, 's, 'i) gameState \<Rightarrow> int option" where
  "lastRestartFrame s = lastRestartFrame_loop (frame s) (restartFrames s) None"

definition createInitialUpdate :: "'b entity \<Rightarrow> 's entityUpdate" where
  "createInitialUpdate entity =
     \<lparr>updateId = - 1, entityId = ent_id entity, u_frame = 0, u_state = None\<rparr>"

text \<open>
  \<^verbatim>\<open>getLastEntityUpdate\<close>: the update it returns. A comparison with
  \<^verbatim>\<open>-Infinity\<close> is false.
\<close>

definition getLastEntityUpdate ::
  "'b entity \<Rightarrow> int \<Rightarrow> ('b, 's, 'i) gameState \<Rightarrow> 's entityUpdate" where
  "getLastEntityUpdate entity upToFrame s =
     (let history = dm_get (stateHistory s) (ent_id entity);
          update = (case Util_findLast history (\<lambda>x. u_frame x \<le> upToFrame) of
                      Some u \<Rightarrow> u
                    | None \<Rightarrow> createInitialUpdate entity)
      in case lastRestartFrame s of
           None \<Rightarrow> update
         | Some r \<Rightarrow>
             if restartable entity \<and> u_frame update < r
             then (createInitialUpdate entity)\<lparr>u_frame := r\<rparr>
             else update)"

text \<open>
  \<^verbatim>\<open>saveStates\<close>: the body of its loop for the entity at index \<open>i\<close>, then the
  loop. \<^verbatim>\<open>Util.last(arr)?.frame === this.frame\<close> is false on an empty array.
\<close>

definition saveStates_external ::
  "('b, 's, 'i) hooks \<Rightarrow> nat \<Rightarrow> ('b, 's, 'i) gameState \<Rightarrow> ('b, 's, 'i) gameState" where
  "saveStates_external h i s =
     (let entity = entities s ! i in
      if stateNeedsStore entity then
        (let arr = dm_get (stateHistory s) (ent_id entity);
             arr1 = (if map_option u_frame (Util_last arr) = Some (frame s)
                     then butlast arr else arr);
             stateUpdate = \<lparr>updateId = nextUpdateId s, entityId = ent_id entity,
                            u_frame = frame s, u_state = Some (getState h entity)\<rparr>
         in s\<lparr>stateHistory := AList.update (ent_id entity) (arr1 @ [stateUpdate]) (stateHistory s),
               nextUpdateId := nextUpdateId s + 1,
               entities := (entities s)[i := entity\<lparr>stateNeedsStore := False\<rparr>]\<rparr>)
      else s)"

definition saveStates_internal ::
  "('b, 's, 'i) hooks \<Rightarrow> nat \<Rightarrow> ('b, 's, 'i) gameState \<Rightarrow> ('b, 's, 'i) gameState" where
  "saveStates_internal h i s =
     (let entity = entities s ! i in
      if internalStateNeedsStore entity then
        (let arr = dm_get (internalStateHistory s) (ent_id entity);
             arr1 = (if map_option fst (Util_last arr) = Some (frame s)
                     then butlast arr else arr);
             entry = (if arr1 = [] then - 1 else frame s, getInternalState h entity)
         in s\<lparr>internalStateHistory :=
                 AList.update (ent_id entity) (arr1 @ [entry]) (internalStateHistory s),
               entities := (entities s)[i := entity\<lparr>internalStateNeedsStore := False\<rparr>]\<rparr>)
      else s)"

definition saveStates ::
  "('b, 's, 'i) hooks \<Rightarrow> ('b, 's, 'i) gameState \<Rightarrow> ('b, 's, 'i) gameState" where
  "saveStates h s =
     fold (\<lambda>i s'. saveStates_internal h i (saveStates_external h i s'))
       [0 ..< length (entities s)] s"

text \<open>
  \<^verbatim>\<open>rollBackEntityToFrame\<close>. Its argument is what \<open>getEntityById\<close> returned;
  reading \<^verbatim>\<open>entity.id\<close> of \<^verbatim>\<open>null\<close> throws.
\<close>

definition rollBackEntityToFrame ::
  "('b, 's, 'i) hooks \<Rightarrow> 'b entity option \<Rightarrow> int
     \<Rightarrow> ('b, 's, 'i) gameState \<Rightarrow> error + ('b, 's, 'i) gameState" where
  "rollBackEntityToFrame h ent fr s =
     (case ent of
        None \<Rightarrow> Inl TypeError
      | Some entity \<Rightarrow>
          (let history = dm_get (stateHistory s) (ent_id entity);
               history1 = popAfter u_frame fr history;
               popped = (length history1 < length history);
               s1 = s\<lparr>stateHistory := AList.update (ent_id entity) history1 (stateHistory s)\<rparr>
           in if \<not> popped then Inr s1
              else
                (let update = getLastEntityUpdate entity fr s1 in
                 case (case u_state update of Some st \<Rightarrow> Some st
                       | None \<Rightarrow> getInitialState h entity) of
                   None \<Rightarrow> Inr s1
                 | Some st \<Rightarrow>
                     Inr (s1\<lparr>entities :=
                            mutateFirst (ent_id entity) (loadState h st (u_frame update) False)
                              (entities s1)\<rparr>))))"

text \<open>
  The body of the loop of \<^verbatim>\<open>rollBackToFrame\<close> over the internal state
  histories. Calling a method of a \<^verbatim>\<open>null\<close> entity, or reading a field of the
  last element of an emptied history, throws.
\<close>

definition rollBackInternal ::
  "('b, 's, 'i) hooks \<Rightarrow> int \<Rightarrow> nat
     \<Rightarrow> ('b, 's, 'i) gameState \<Rightarrow> error + ('b, 's, 'i) gameState" where
  "rollBackInternal h target entId s =
     (let history = dm_get (internalStateHistory s) entId;
          history1 = popAfter fst target history;
          popped = (length history1 < length history);
          s1 = s\<lparr>internalStateHistory := AList.update entId history1 (internalStateHistory s)\<rparr>
      in if \<not> popped then Inr s1
         else
           (case getEntityById s1 entId of
              None \<Rightarrow> Inl TypeError
            | Some entity \<Rightarrow>
                (case Util_last history1 of
                   None \<Rightarrow> Inl TypeError
                 | Some l \<Rightarrow>
                     Inr (s1\<lparr>entities :=
                            mutateFirst entId (loadInternalState h (snd l) (fst l))
                              (entities s1)\<rparr>))))"

text \<open>
  \<^verbatim>\<open>rollBackToFrame\<close>, in two parts. First the assignment of the frame and the
  three loops over the affection graph and the message queues. The variable
  \<^verbatim>\<open>helpMessages\<close> of the source is assigned \<^verbatim>\<open>G.menu.hud.alerts\<close>, so
  both message loops run on the alerts.
\<close>

definition rollBackQueues :: "int \<Rightarrow> ('b, 's, 'i) gameState \<Rightarrow> ('b, 's, 'i) gameState" where
  "rollBackQueues target s =
     (let s1 = s\<lparr>frame := target\<rparr>;
          s2 = s1\<lparr>affectionGraph := popAfter edge_frame target (affectionGraph s1)\<rparr>;
          helpMessages_var = alerts (the_hud s2);
          s3 = s2\<lparr>the_hud := (the_hud s2)\<lparr>alerts := popAfter m_frame target helpMessages_var\<rparr>\<rparr>;
          alerts_var = alerts (the_hud s3)
      in s3\<lparr>the_hud := (the_hud s3)\<lparr>alerts := popAfter m_frame target alerts_var\<rparr>\<rparr>)"

text \<open>
  Then the early return, the loops over the two histories (each over the keys of its
  map) and the final \<^verbatim>\<open>saveStates\<close>.
\<close>

definition rollBackToFrame ::
  "('b, 's, 'i) hooks \<Rightarrow> int \<Rightarrow> ('b, 's, 'i) gameState \<Rightarrow> error + ('b, 's, 'i) gameState" where
  "rollBackToFrame h target s =
     (if target = frame s then Inr s
      else
        (let s4 = rollBackQueues target s
         in case forEach (rollBackInternal h target) (map fst (internalStateHistory s4)) s4 of
              Inl e \<Rightarrow> Inl e
            | Inr s5 \<Rightarrow>
                (case forEach (\<lambda>entId s'. rollBackEntityToFrame h (getEntityById s' entId) target s')
                        (map fst (stateHistory s5)) s5 of
                   Inl e \<Rightarrow> Inl e
                 | Inr s6 \<Rightarrow> Inr (saveStates h s6))))"

subsection \<open>Runs of the game state\<close>

text \<open>
  The state of a new \<^verbatim>\<open>GameState\<close>, and the operations that change it. \<open>Tick\<close>
  is modelled from the spec: the frame counter advances by one during normal play (the
  simulator that does so is not part of the sources at hand). \<open>SetEntities\<close> stands for
  everything the game does to its entities between two calls (adding entities, physics,
  raising the store flags); \<open>PushRestartFrame\<close> is the marble's
  \<^verbatim>\<open>restartFrames.push\<close>.
\<close>

definition initialState :: "'b entity list \<Rightarrow> ('b, 's, 'i) gameState" where
  "initialState es =
     \<lparr>frame = - 1, maxFrame = - 1, restartFrames = [], stateHistory = [],
      internalStateHistory = [], affectionGraph = [], nextUpdateId = 0,
      nextAffectionEdgeId = 0, entities = es,
      the_hud = \<lparr>helpMessages = [], alerts = []\<rparr>\<rparr>"

datatype 'b operation =
    Tick
  | SaveStates
  | RollBackToFrame int
  | SetEntities "'b entity list"
  | PushRestartFrame int

fun step ::
  "('b, 's, 'i) hooks \<Rightarrow> 'b operation \<Rightarrow> ('b, 's, 'i) gameState
     \<Rightarrow> error + ('b, 's, 'i) gameState" where
  "step h Tick s = Inr (s\<lparr>frame := frame s + 1\<rparr>)"
| "step h SaveStates s = Inr (saveStates h s)"
| "step h (RollBackToFrame target) s = rollBackToFrame h target s"
| "step h (SetEntities es) s = Inr (s\<lparr>entities := es\<rparr>)"
| "step h (PushRestartFrame r) s = Inr (s\<lparr>restartFrames := restartFrames s @ [r]\<rparr>)"

definition run ::
  "('b, 's, 'i) hooks \<Rightarrow> 'b operation list \<Rightarrow> ('b, 's, 'i) gameState
     \<Rightarrow> error + ('b, 's, 'i) gameState" where
  "run h ops s = forEach (step h) ops s"

text \<open>
  \<open>run\<close> ends at the first operation that throws, with \<open>Inl\<close>. The methods mutate the
  game state in place, so a call that throws leaves behind what it had assigned before
  the exception, and a caller that catches the exception goes on with that state.
  \<^verbatim>\<open>rollBackToFrame\<close> has by then assigned the frame and pruned the queues. In the
  loop over the internal state histories the exception comes after the history of the
  entity at hand was popped (the call on the \<^verbatim>\<open>null\<close> entity, or the read of the
  last element of an emptied history); in the loop over the state histories it comes
  from \<^verbatim>\<open>entity.id\<close>, before \<^verbatim>\<open>rollBackEntityToFrame\<close> has changed anything.
  \<open>forEach_after\<close> is the state a loop ends in, \<open>after\<close> being what the body that
  throws leaves behind.
\<close>

definition rollBackInternal_after ::
  "('b, 's, 'i) hooks \<Rightarrow> int \<Rightarrow> nat \<Rightarrow> ('b, 's, 'i) gameState \<Rightarrow> ('b, 's, 'i) gameState" where
  "rollBackInternal_after h target entId s =
     (case rollBackInternal h target entId s of
        Inr s' \<Rightarrow> s'
      | Inl e \<Rightarrow>
          s\<lparr>internalStateHistory :=
              AList.update entId (popAfter fst target (dm_get (internalStateHistory s) entId))
                (internalStateHistory s)\<rparr>)"

fun forEach_after ::
  "('a \<Rightarrow> 'st \<Rightarrow> error + 'st) \<Rightarrow> ('a \<Rightarrow> 'st \<Rightarrow> 'st) \<Rightarrow> 'a list \<Rightarrow> 'st \<Rightarrow> 'st" where
  "forEach_after body after [] s = s"
| "forEach_after body after (x # xs) s =
     (case body x s of Inl e \<Rightarrow> after x s | Inr s' \<Rightarrow> forEach_after body after xs s')"

text \<open>The game state after a call of \<^verbatim>\<open>rollBackToFrame\<close>, returned or thrown.\<close>

definition rollBackToFrame_after ::
  "('b, 's, 'i) hooks \<Rightarrow> int \<Rightarrow> ('b, 's, 'i) gameState \<Rightarrow> ('b, 's, 'i) gameState" where
  "rollBackToFrame_after h target s =
     (if target = frame s then s
      else
        (let s4 = rollBackQueues target s
         in case forEach (rollBackInternal h target) (map fst (internalStateHistory s4)) s4 of
              Inl e \<Rightarrow>
                forEach_after (rollBackInternal h target) (rollBackInternal_after h target)
                  (map fst (internalStateHistory s4)) s4
            | Inr s5 \<Rightarrow>
                (case forEach (\<lambda>entId s'. rollBackEntityToFrame h (getEntityById s' entId) target s')
                        (map fst (stateHistory s5)) s5 of
                   Inl e \<Rightarrow>
                     forEach_after
                       (\<lambda>entId s'. rollBackEntityToFrame h (getEntityById s' entId) target s')
                       (\<lambda>entId s'. s') (map fst (stateHistory s5)) s5
                 | Inr s6 \<Rightarrow> saveStates h s6)))"

text \<open>
  A run whose caller catches every exception: each operation is applied to the state the
  one before it left behind. The other operations do not throw.
\<close>

fun step_caught ::
  "('b, 's, 'i) hooks \<Rightarrow> 'b operation \<Rightarrow> ('b, 's, 'i) gameState \<Rightarrow> ('b, 's, 'i) gameState" where
  "step_caught h (RollBackToFrame target) s = rollBackToFrame_after h target s"
| "step_caught h x s = (case step h x s of Inr s' \<Rightarrow> s' | Inl e \<Rightarrow> s)"

definition run_caught ::
  "('b, 's, 'i) hooks \<Rightarrow> 'b operation list \<Rightarrow> ('b, 's, 'i) gameState \<Rightarrow> ('b, 's, 'i) gameState" where
  "run_caught h ops s = fold (step_caught h) ops s"


subsection \<open>Concrete entities and states\<close>

text \<open>Entities whose body, state and internal state are one integer.\<close>

definition hooks0 :: "(int, int, int) hooks" where
  "hooks0 = \<lparr>getState = ent_body, getInternalState = ent_body,
     getInitialState = (\<lambda>e. Some 0),
     loadState = (\<lambda>st fr remote e. e\<lparr>ent_body := st\<rparr>),
     loadInternalState = (\<lambda>st fr e. e)\<rparr>"

definition dirty :: "nat \<Rightarrow> int \<Rightarrow> int entity" where
  "dirty k b = \<lparr>ent_id = k, restartable = True, stateNeedsStore = True,
     internalStateNeedsStore = True, ent_body = b\<rparr>"

definition update3 :: "int entityUpdate" where
  "update3 = \<lparr>updateId = 0, entityId = 1, u_frame = 3, u_state = Some 42\<rparr>"

text \<open>
  A game at frame 10 that restarted at frame 8 and holds one update of entity 1,
  recorded at frame 3.
\<close>

definition restarted10 :: "(int, int, int) gameState" where
  "restarted10 = (initialState [dirty 1 0])\<lparr>frame := 10, restartFrames := [8],
     stateHistory := [(1, [update3])], nextUpdateId := 1\<rparr>"

text \<open>
  A game that restarted at frame 10, was rolled back to frame 5 and restarted again at
  frame 3 (\<^verbatim>\<open>rollBackToFrame\<close> leaves \<^verbatim>\<open>restartFrames\<close> as they are), with
  updates of entity 1 recorded at the frames 1 and 3.
\<close>

definition update1 :: "int entityUpdate" where
  "update1 = \<lparr>updateId = 0, entityId = 1, u_frame = 1, u_state = Some 41\<rparr>"

definition rewound5 :: "(int, int, int) gameState" where
  "rewound5 = (initialState [dirty 1 0])\<lparr>frame := 5, restartFrames := [10, 3],
     stateHistory := [(1, [update1, update3\<lparr>updateId := 1\<rparr>])], nextUpdateId := 2\<rparr>"

text \<open>
  A game at frame 5 with an affection edge, a help message and an alert of frame 2, and
  one of each of frame 4.
\<close>

definition messages5 :: "(int, int, int) gameState" where
  "messages5 = (initialState [])\<lparr>frame := 5,
     affectionGraph := [\<lparr>edge_id = 0, edge_from = 1, edge_to = 2, edge_frame = 2\<rparr>,
                        \<lparr>edge_id = 1, edge_from = 2, edge_to = 1, edge_frame = 4\<rparr>],
     nextAffectionEdgeId := 2,
     the_hud := \<lparr>helpMessages = [\<lparr>m_frame = 2, getMessage = ''early help''\<rparr>,
                                  \<lparr>m_frame = 4, getMessage = ''late help''\<rparr>],
                  alerts = [\<lparr>m_frame = 2, getMessage = ''early alert''\<rparr>,
                            \<lparr>m_frame = 4, getMessage = ''late alert''\<rparr>]\<rparr>\<rparr>"

subsection \<open>Invariants of the recorded histories\<close>








subsection \<open>Causality propagation\<close>

text \<open>
  The \<^verbatim>\<open>affectedBy\<close> sets of the entities, keyed by the entity's identity: a finite
  set of players each.
\<close>

type_synonym affected = "nat \<Rightarrow> nat fset"

text \<open>
  The loop \<^verbatim>\<open>for (let edge of this.affectionGraph) if (edge.from === e)
  propagate(edge.to)\<close>, with \<open>f\<close> the recursive call; \<open>None\<close> when a call does not
  return.
\<close>

fun visit ::
  "(nat \<Rightarrow> affected \<Rightarrow> affected option) \<Rightarrow> affectionEdge list \<Rightarrow> nat \<Rightarrow> affected
     \<Rightarrow> affected option" where
  "visit f [] e a = Some a"
| "visit f (edge # edges) e a =
     (if edge_from edge = e
      then (case f (edge_to edge) a of None \<Rightarrow> None | Some a' \<Rightarrow> visit f edges e a')
      else visit f edges e a)"

text \<open>
  The closure \<^verbatim>\<open>propagate\<close> of \<^verbatim>\<open>recordEntityInteraction\<close>, with fuel for the
  depth of the recursion: \<open>None\<close> when the fuel runs out. Its first loop adds every
  player of \<^verbatim>\<open>e1.affectedBy\<close> missing in \<^verbatim>\<open>e.affectedBy\<close> and sets
  \<^verbatim>\<open>keepGoing\<close> when it added one: the set of \<open>e\<close> becomes the union, and
  \<open>keepGoing\<close> says that the set of \<open>e1\<close> was not contained in it.
\<close>

primrec propagate ::
  "nat \<Rightarrow> affectionEdge list \<Rightarrow> nat \<Rightarrow> nat \<Rightarrow> affected \<Rightarrow> affected option" where
  "propagate 0 graph e1 e a = None"
| "propagate (Suc fuel) graph e1 e a =
     (let keepGoing = \<not> (a e1 |\<subseteq>| a e);
          a' = a(e := a e |\<union>| a e1)
      in if keepGoing then visit (propagate fuel graph e1) graph e a' else Some a')"

definition recordEntityInteraction ::
  "nat \<Rightarrow> nat \<Rightarrow> nat \<Rightarrow> ('b, 's, 'i) gameState \<times> affected
     \<Rightarrow> (('b, 's, 'i) gameState \<times> affected) option" where
  "recordEntityInteraction fuel e1 e2 sa =
     (case sa of (s, a) \<Rightarrow>
        (let s' = s\<lparr>affectionGraph := affectionGraph s @
                      [\<lparr>edge_id = nextAffectionEdgeId s, edge_from = e1, edge_to = e2,
                        edge_frame = frame s\<rparr>],
                    nextAffectionEdgeId := nextAffectionEdgeId s + 1\<rparr>
         in map_option (Pair s') (propagate fuel (affectionGraph s') e1 e2 a)))"

text \<open>
  The players still missing at the targets of the edges: the measure that decreases
  along the recursion.
\<close>

definition missing :: "affectionEdge list \<Rightarrow> nat \<Rightarrow> affected \<Rightarrow> nat" where
  "missing graph e1 a = (\<Sum>x \<in> edge_to ` set graph. fcard (a e1 |-| a x))"

text \<open>
  A cyclic graph: entities 1 and 2 affect each other. Entity 1 is affected by the
  players 7 and 8, entity 2 by player 9 and entity 3 by player 5.
\<close>

definition cyclic :: "(int, int, int) gameState" where
  "cyclic = (initialState [])\<lparr>frame := 4,
     affectionGraph := [\<lparr>edge_id = 0, edge_from = 1, edge_to = 2, edge_frame = 2\<rparr>,
                        \<lparr>edge_id = 1, edge_from = 2, edge_to = 1, edge_frame = 3\<rparr>],
     nextAffectionEdgeId := 2\<rparr>"

definition players0 :: affected where
  "players0 = (\<lambda>e. {||})(1 := {|7, 8|}, 2 := {|9|}, 3 := {|5|})"

text \<open>
  What a call of \<open>propagate\<close> does to the sets: the set of \<open>e1\<close> stays, every
  set can only grow.
\<close>

definition grows :: "nat \<Rightarrow> affected \<Rightarrow> affected \<Rightarrow> bool" where
  "grows e1 a b \<longleftrightarrow> b e1 = a e1 \<and> (\<forall>x. a x |\<subseteq>| b x)"

section \<open>Broadphase: sweep and prune\<close>

subsection \<open>Data\<close>

text \<open>
  A \<^verbatim>\<open>BroadphaseObject\<close>: its identity, the corners of its bounding box, its
  collision mask and its dynamic flag. The broadphase only compares coordinates, so
  their type \<open>'v\<close> is any linear order.
\<close>

record 'v broadphaseObject =
  obj_ref :: nat
  boundingBox_min :: "'v \<times> 'v \<times> 'v"
  boundingBox_max :: "'v \<times> 'v \<times> 'v"
  collisionDetectionMask :: "32 word"
  dynamic :: bool

definition getComponent :: "'v \<times> 'v \<times> 'v \<Rightarrow> nat \<Rightarrow> 'v" where
  "getComponent v axis = (case v of (x, y, z) \<Rightarrow> if axis = 0 then x else if axis = 1 then y else z)"

text \<open>
  \<^verbatim>\<open>ObjectProxy\<close>. Its field \<^verbatim>\<open>intersections\<close>, an array no method reads or
  writes, is left out.
\<close>

record 'v objectProxy =
  objectIndex :: nat
  p_object :: nat
  p_min :: bool
  p_value :: 'v
  p_index :: int
  p_mask :: "32 word"
  p_dynamic :: bool

text \<open>
  The bounds of a sort window are numbers or \<^verbatim>\<open>Infinity\<close> or \<^verbatim>\<open>-Infinity\<close>.
\<close>

datatype bound = NegInf | Fin int | PosInf

fun bound_min :: "bound \<Rightarrow> bound \<Rightarrow> bound" where
  "bound_min NegInf b = NegInf"
| "bound_min a NegInf = NegInf"
| "bound_min PosInf b = b"
| "bound_min a PosInf = a"
| "bound_min (Fin a) (Fin b) = Fin (min a b)"

fun bound_max :: "bound \<Rightarrow> bound \<Rightarrow> bound" where
  "bound_max PosInf b = PosInf"
| "bound_max a PosInf = PosInf"
| "bound_max NegInf b = b"
| "bound_max a NegInf = a"
| "bound_max (Fin a) (Fin b) = Fin (max a b)"

text \<open>
  \<^verbatim>\<open>SweepAndPruneBroadphase\<close>. The proxies are objects shared between the three
  lists and \<^verbatim>\<open>objectToProxies\<close>: \<open>heap\<close> holds them in the order of their
  creation, and the lists and the map hold their addresses. \<open>intersections\<close> is the
  flat array of the source, two entries for each pair.
\<close>

record 'v broadphase =
  lists :: "nat list list"
  heap :: "'v objectProxy list"
  objectToProxies :: "nat \<Rightarrow> nat list option"
  objectCount :: nat
  flags :: "8 word list"
  anyFlagSet :: bool
  needsSort :: bool
  sortStarts :: "bound list"
  sortEnds :: "bound list"
  intersections :: "nat list"

definition emptyBroadphase :: "'v broadphase" where
  "emptyBroadphase =
     \<lparr>lists = [[], [], []], heap = [], objectToProxies = (\<lambda>_. None), objectCount = 0,
      flags = [], anyFlagSet = False, needsSort = False,
      sortStarts = [PosInf, PosInf, PosInf], sortEnds = [NegInf, NegInf, NegInf],
      intersections = []\<rparr>"

subsection \<open>The triangular flag array\<close>

text \<open>
  The index of the pair \<open>i2 < i1\<close> among \<open>n\<close> objects, as the source computes it; both
  products are even, so the divisions are exact.
\<close>

definition flagIndex :: "int \<Rightarrow> int \<Rightarrow> int \<Rightarrow> int" where
  "flagIndex n i1 i2 = (n * (n - 1)) div 2 - ((n - i2) * ((n - i2) - 1)) div 2 + i1 - i2 - 1"

text \<open>
  Reading and writing a \<^verbatim>\<open>Uint8Array\<close>. Out of range a read gives
  \<^verbatim>\<open>undefined\<close>, which the bit operations of the source and a store into the array
  turn into 0, and a write does nothing.
\<close>

definition readFlag :: "8 word list \<Rightarrow> int \<Rightarrow> 8 word" where
  "readFlag fl k = (if 0 \<le> k \<and> k < int (length fl) then fl ! nat k else 0)"

definition writeFlag :: "8 word list \<Rightarrow> int \<Rightarrow> 8 word \<Rightarrow> 8 word list" where
  "writeFlag fl k v = (if 0 \<le> k \<and> k < int (length fl) then fl[nat k := v] else fl)"

subsection \<open>The list of intersections\<close>

text \<open>
  The loop that splices the pair \<open>(a, b)\<close> out of the flat array: it looks at the even
  offsets and removes the first match.
\<close>

fun removePair :: "nat \<Rightarrow> nat \<Rightarrow> nat list \<Rightarrow> nat list" where
  "removePair a b (x # y # rest) =
     (if x = a \<and> y = b then rest else x # y # removePair a b rest)"
| "removePair a b xs = xs"

text \<open>The pairs a flat array holds.\<close>

fun pairs_of :: "'a list \<Rightarrow> ('a \<times> 'a) list" where
  "pairs_of (x # y # rest) = (x, y) # pairs_of rest"
| "pairs_of xs = []"

subsection \<open>insert\<close>

text \<open>The methods \<^verbatim>\<open>insert\<close>, \<^verbatim>\<open>sort\<close> and \<^verbatim>\<open>update\<close> are \<open>insert_bp\<close>, \<open>sort_bp\<close>
  and \<open>update_bp\<close> here.\<close>

text \<open>The six proxies of an object: the minima of the three axes, then the maxima.\<close>

definition newProxies :: "'v broadphaseObject \<Rightarrow> nat \<Rightarrow> 'v objectProxy list" where
  "newProxies object oi =
     map (\<lambda>k. \<lparr>objectIndex = oi, p_object = obj_ref object, p_min = (k < 3),
               p_value = getComponent
                 (if k < 3 then boundingBox_min object else boundingBox_max object) (k mod 3),
               p_index = - 1, p_mask = collisionDetectionMask object,
               p_dynamic = dynamic object\<rparr>)
       [0 ..< 6]"

text \<open>
  The loop that pushes proxy \<open>i\<close>, at address \<open>base + i\<close>, on the list of its axis and
  stores its position there.
\<close>

definition pushProxy :: "nat \<Rightarrow> nat \<Rightarrow> 'v broadphase \<Rightarrow> 'v broadphase" where
  "pushProxy base i s =
     (let list = lists s ! (i mod 3) @ [base + i]
      in s\<lparr>lists := (lists s)[i mod 3 := list],
            heap := (heap s)[base + i := (heap s ! (base + i))\<lparr>p_index := int (length list) - 1\<rparr>]\<rparr>)"

text \<open>
  The loops that copy the old flags into the new array, for \<open>oc\<close> the new object
  count and \<open>n = oc - 1\<close>.
\<close>

definition copyFlag :: "int \<Rightarrow> 8 word list \<Rightarrow> nat \<times> nat \<Rightarrow> 8 word list \<Rightarrow> 8 word list" where
  "copyFlag n oldFlags p fl =
     (case p of (o1, o2) \<Rightarrow>
        (let oldN = n - 1;
             oldIndex = (oldN * (oldN - 1)) div 2
                        - ((oldN - int o2) * ((oldN - int o2) - 1)) div 2 + int o1 - int o2 - 1;
             newIndex = (n * (n - 1)) div 2
                        - ((n - int o2) * ((n - int o2) - 1)) div 2 + int o1 - int o2 - 1
         in writeFlag fl newIndex (readFlag oldFlags oldIndex)))"

definition copyFlags :: "nat \<Rightarrow> 8 word list \<Rightarrow> 8 word list \<Rightarrow> 8 word list" where
  "copyFlags oc oldFlags fl =
     fold (copyFlag (int oc - 1) oldFlags)
       (concat (map (\<lambda>o1. map (\<lambda>o2. (o1, o2)) [o1 + 1 ..< oc - 2]) [0 ..< oc - 1])) fl"

definition insert_bp :: "'v broadphaseObject \<Rightarrow> 'v broadphase \<Rightarrow> 'v broadphase" where
  "insert_bp object s =
     (let oc = objectCount s + 1;
          objectIndex = oc - 1;
          base = length (heap s);
          s1 = s\<lparr>objectCount := oc,
                 heap := heap s @ newProxies object objectIndex,
                 objectToProxies := (objectToProxies s)(obj_ref object \<mapsto> map (\<lambda>i. base + i) [0 ..< 6])\<rparr>;
          s2 = fold (pushProxy base) [0 ..< 6] s1;
          oldFlags = flags s2;
          n = oc - 1;
          zeros = replicate ((n * n + n) div 2) 0;
          s3 = s2\<lparr>flags := (if anyFlagSet s2 then copyFlags oc oldFlags zeros else zeros)\<rparr>;
          lastIndex = Fin (int (length (lists s3 ! 0)) - 1)
      in s3\<lparr>needsSort := True, sortStarts := [Fin 0, Fin 0, Fin 0],
            sortEnds := [lastIndex, lastIndex, lastIndex]\<rparr>)"

subsection \<open>sort\<close>

text \<open>
  What the body of the inner loop does after swapping, for the proxies \<open>a\<close> and \<open>b\<close>
  now at \<open>j - 1\<close> and \<open>j\<close>: the test \<open>toggle\<close>, and the update of the pair's flag and
  of the intersections.
\<close>

definition toggles :: "'v objectProxy \<Rightarrow> 'v objectProxy \<Rightarrow> bool" where
  "toggles a b \<longleftrightarrow>
     p_object a \<noteq> p_object b \<and> p_min a \<noteq> p_min b \<and> p_mask a AND p_mask b \<noteq> 0
     \<and> (p_dynamic a \<or> p_dynamic b)"

definition toggleFlag ::
  "nat \<Rightarrow> 'v objectProxy \<Rightarrow> 'v objectProxy \<Rightarrow> 'v broadphase \<Rightarrow> 'v broadphase" where
  "toggleFlag dimension a0 b0 s =
     (let a = (if objectIndex b0 > objectIndex a0 then b0 else a0);
          b = (if objectIndex b0 > objectIndex a0 then a0 else b0);
          i1 = objectIndex a;
          i2 = objectIndex b;
          n = objectCount s;
          k = flagIndex (int n) (int i1) (int i2);
          fl = readFlag (flags s) k
      in (if fl AND push_bit dimension 1 \<noteq> 0
          then
            (let needsDelete = (fl = 7);
                 fl1 = fl AND NOT (push_bit dimension 1);
                 s1 = s\<lparr>flags := writeFlag (flags s) k fl1\<rparr>
             in if needsDelete
                then s1\<lparr>intersections := removePair (p_object a) (p_object b) (intersections s1)\<rparr>
                else s1)
          else
            (let fl1 = fl OR push_bit dimension 1;
                 s1 = s\<lparr>flags := writeFlag (flags s) k fl1\<rparr>
             in if fl1 = 7
                then s1\<lparr>intersections := intersections s1 @ [p_object a, p_object b]\<rparr>
                else s1))
         \<lparr>anyFlagSet := True\<rparr>)"

text \<open>
  One pass of the body of the inner loop, for \<open>j > 0\<close>: first the swap of the entries
  \<open>j - 1\<close> and \<open>j\<close> of the list and the assignment of their indices, then the test and
  the toggle for the proxies \<open>a\<close> and \<open>b\<close> now at \<open>j - 1\<close> and \<open>j\<close>.
\<close>

definition swapProxies :: "nat \<Rightarrow> nat \<Rightarrow> 'v broadphase \<Rightarrow> 'v broadphase" where
  "swapProxies dimension j s =
     (let list = lists s ! dimension;
          temp = list ! (j - 1);
          list1 = list[j - 1 := list ! j, j := temp];
          a = list1 ! (j - 1);
          b = list1 ! j;
          h1 = (heap s)[a := (heap s ! a)\<lparr>p_index := int j - 1\<rparr>];
          h2 = h1[b := (h1 ! b)\<lparr>p_index := int j\<rparr>]
      in s\<lparr>lists := (lists s)[dimension := list1], heap := h2\<rparr>)"

definition swapStep :: "nat \<Rightarrow> nat \<Rightarrow> 'v broadphase \<Rightarrow> 'v broadphase" where
  "swapStep dimension j s =
     (let s1 = swapProxies dimension j s;
          a = heap s1 ! (lists s1 ! dimension ! (j - 1));
          b = heap s1 ! (lists s1 ! dimension ! j)
      in if toggles a b then toggleFlag dimension a b s1 else s1)"

text \<open>
  The inner loop \<^verbatim>\<open>while (j > start && list[j-1].value > list[j].value)\<close>, by
  recursion on \<open>j\<close>.
\<close>

fun sortInner :: "nat \<Rightarrow> nat \<Rightarrow> nat \<Rightarrow> 'v::linorder broadphase \<Rightarrow> 'v broadphase" where
  "sortInner dimension start 0 s = s"
| "sortInner dimension start (Suc j) s =
     (if Suc j > start
         \<and> p_value (heap s ! (lists s ! dimension ! j))
             > p_value (heap s ! (lists s ! dimension ! Suc j))
      then sortInner dimension start j (swapStep dimension (Suc j) s)
      else s)"

text \<open>
  The outer loop \<^verbatim>\<open>for (let i = start + 1; i <= end; i++)\<close>. A window with an
  infinite bound has no such \<open>i\<close>, and the start of a window is never negative.
\<close>

fun sortOuter :: "nat \<Rightarrow> bound \<Rightarrow> bound \<Rightarrow> 'v::linorder broadphase \<Rightarrow> 'v broadphase" where
  "sortOuter dimension (Fin start) (Fin hi) s =
     fold (sortInner dimension (nat start)) [nat start + 1 ..< nat (hi + 1)] s"
| "sortOuter dimension start hi s = s"

text \<open>
  \<^verbatim>\<open>sort\<close>. Its first two statements set every window to the whole list; it then
  reads the window of its axis (\<open>hi\<close> is the variable \<^verbatim>\<open>end\<close> of the source).
\<close>

definition sort_bp :: "nat \<Rightarrow> 'v::linorder broadphase \<Rightarrow> 'v broadphase" where
  "sort_bp dimension s =
     (let lastIndex = Fin (int (length (lists s ! 0)) - 1);
          s1 = s\<lparr>sortStarts := [Fin 0, Fin 0, Fin 0], sortEnds := [lastIndex, lastIndex, lastIndex]\<rparr>;
          start = sortStarts s1 ! dimension;
          hi = sortEnds s1 ! dimension;
          s2 = sortOuter dimension start hi s1
      in s2\<lparr>sortStarts := (sortStarts s2)[dimension := PosInf],
            sortEnds := (sortEnds s2)[dimension := NegInf]\<rparr>)"

subsection \<open>update and recompute\<close>

text \<open>
  The two loops of \<^verbatim>\<open>update\<close> that widen the window:
  \<^verbatim>\<open>while (start > 0 && list[start - 1].value > minProxy.value) start--\<close>, by
  recursion on \<open>start\<close>, and
  \<^verbatim>\<open>while (end < list.length - 2 && list[end + 1].value < maxProxy.value) end++\<close>,
  by recursion on the distance of \<open>end\<close> from \<open>list.length - 2\<close>.
\<close>

fun lowerStart :: "'v::linorder objectProxy list \<Rightarrow> nat list \<Rightarrow> 'v \<Rightarrow> nat \<Rightarrow> nat" where
  "lowerStart h list v 0 = 0"
| "lowerStart h list v (Suc start) =
     (if p_value (h ! (list ! start)) > v then lowerStart h list v start else Suc start)"

fun raiseEnd :: "'v::linorder objectProxy list \<Rightarrow> nat list \<Rightarrow> 'v \<Rightarrow> nat \<Rightarrow> nat \<Rightarrow> nat" where
  "raiseEnd h list v 0 hi = hi"
| "raiseEnd h list v (Suc k) hi =
     (if p_value (h ! (list ! (hi + 1))) < v then raiseEnd h list v k (hi + 1) else hi)"

text \<open>
  The body of the loop of \<^verbatim>\<open>update\<close> for one axis. The window bounds it starts
  from are the minimum and the maximum with an index of a proxy, a number that is not
  negative; the loops leave any other bound as it is.
\<close>

definition updateDim ::
  "'v::linorder broadphaseObject \<Rightarrow> nat list \<Rightarrow> nat \<Rightarrow> 'v broadphase \<Rightarrow> 'v broadphase" where
  "updateDim object proxies axis s =
     (let minProxy = proxies ! axis;
          maxProxy = proxies ! (axis + 3);
          h1 = (heap s)[minProxy :=
                 (heap s ! minProxy)\<lparr>p_value := getComponent (boundingBox_min object) axis\<rparr>];
          h2 = h1[maxProxy := (h1 ! maxProxy)\<lparr>p_value := getComponent (boundingBox_max object) axis\<rparr>];
          start = bound_min (sortStarts s ! axis) (Fin (p_index (h2 ! minProxy)));
          hi = bound_max (sortEnds s ! axis) (Fin (p_index (h2 ! maxProxy)));
          list = lists s ! axis;
          lo1 = (case start of
                      Fin k \<Rightarrow> if k > 0
                        then Fin (int (lowerStart h2 list (p_value (h2 ! minProxy)) (nat k)))
                        else start
                    | _ \<Rightarrow> start);
          hi1 = (case hi of
                    Fin k \<Rightarrow> if 0 \<le> k
                      then Fin (int (raiseEnd h2 list (p_value (h2 ! maxProxy))
                                  (nat (int (length list) - 2 - k)) (nat k)))
                      else hi
                  | _ \<Rightarrow> hi)
      in s\<lparr>heap := h2, sortStarts := (sortStarts s)[axis := lo1],
            sortEnds := (sortEnds s)[axis := hi1]\<rparr>)"

definition update_bp :: "'v::linorder broadphaseObject \<Rightarrow> 'v broadphase \<Rightarrow> 'v broadphase" where
  "update_bp object s =
     (case objectToProxies s (obj_ref object) of
        None \<Rightarrow> insert_bp object s
      | Some proxies \<Rightarrow> (fold (updateDim object proxies) [0 ..< 3] s)\<lparr>needsSort := True\<rparr>)"

definition recompute :: "'v::linorder broadphase \<Rightarrow> 'v broadphase" where
  "recompute s =
     (if needsSort s then (fold sort_bp [0 ..< 3] s)\<lparr>needsSort := False\<rparr> else s)"

subsection \<open>Concrete boxes\<close>

text \<open>
  Cubes with integer corners: \<open>cube r lo hi\<close> is the dynamic object \<open>r\<close> with mask 1
  whose box is \<open>[lo, hi]\<close> on every axis.
\<close>

definition cube :: "nat \<Rightarrow> int \<Rightarrow> int \<Rightarrow> int broadphaseObject" where
  "cube r lo hi = \<lparr>obj_ref = r, boundingBox_min = (lo, lo, lo), boundingBox_max = (hi, hi, hi),
     collisionDetectionMask = 1, dynamic = True\<rparr>"

section \<open>Properties of the marble\<close>

text \<open>Concrete marbles and power-ups used to run the definitions.\<close>

definition marble0 :: "unit marble" where
  "marble0 = \<lparr>heldPowerUp = None, powerupButtonState = False,
     reconciliationPosition = (0, 0, 0), interpolatedPosition = (0, 0, 0),
     interpolatedOrientation = (), interpolationRemaining = 0, interpolationStrength = 1,
     body_position = (1, 0, 0), body_orientation = (), body_linearVelocity = (0, 0, 0)\<rparr>"

definition megaMarble1 :: powerUp where
  "megaMarble1 = \<lparr>pu_instance = 1, pu_constructor = ''MegaMarble''\<rparr>"

definition megaMarble2 :: powerUp where
  "megaMarble2 = \<lparr>pu_instance = 2, pu_constructor = ''MegaMarble''\<rparr>"

definition superJump3 :: powerUp where
  "superJump3 = \<lparr>pu_instance = 3, pu_constructor = ''SuperJump''\<rparr>"

text \<open>
  C10. \<^verbatim>\<open>pickUpPowerUp(p)\<close> returns false and leaves the marble unchanged when
  \<open>p\<close> is null or when the held power-up has the same concrete class as \<open>p\<close>
  (whatever the instance); for every other \<open>p\<close> it stores \<open>p\<close> as the held
  power-up, replacing any held one, and returns true.
\<close>

theorem pickUpPowerUp_spec:
  "(p = None \<or> (\<exists>q h. p = Some q \<and> heldPowerUp m = Some h
        \<and> pu_constructor h = pu_constructor q)
      \<longrightarrow> pickUpPowerUp p m = (False, m))
   \<and> (\<not> (p = None \<or> (\<exists>q h. p = Some q \<and> heldPowerUp m = Some h
        \<and> pu_constructor h = pu_constructor q))
      \<longrightarrow> fst (pickUpPowerUp p m) = True
          \<and> heldPowerUp (snd (pickUpPowerUp p m)) = p)"
  by (auto simp: pickUpPowerUp_def split: option.splits)

theorem pickUpPowerUp_spec_witness:
  "pickUpPowerUp (Some megaMarble2) (marble0\<lparr>heldPowerUp := Some megaMarble1\<rparr>)
     = (False, marble0\<lparr>heldPowerUp := Some megaMarble1\<rparr>)
   \<and> pickUpPowerUp None (marble0\<lparr>heldPowerUp := Some megaMarble1\<rparr>)
     = (False, marble0\<lparr>heldPowerUp := Some megaMarble1\<rparr>)
   \<and> fst (pickUpPowerUp (Some superJump3) (marble0\<lparr>heldPowerUp := Some megaMarble1\<rparr>))
   \<and> heldPowerUp (snd (pickUpPowerUp (Some superJump3)
        (marble0\<lparr>heldPowerUp := Some megaMarble1\<rparr>))) = Some superJump3
   \<and> megaMarble1 \<noteq> megaMarble2"
  using pickUpPowerUp_spec [of "Some megaMarble2" "marble0\<lparr>heldPowerUp := Some megaMarble1\<rparr>"]
    pickUpPowerUp_spec [of None "marble0\<lparr>heldPowerUp := Some megaMarble1\<rparr>"]
    pickUpPowerUp_spec [of "Some superJump3" "marble0\<lparr>heldPowerUp := Some megaMarble1\<rparr>"]
  by (simp add: megaMarble1_def megaMarble2_def superJump3_def marble0_def)

lemma renderFrames_snoc:
  "renderFrames rate slerp (bs @ [b]) m
     = postUpdate rate slerp False (moveBody b (renderFrames rate slerp bs m))"
  by (simp add: renderFrames_def)

lemma interpolationRemaining_renderFrames:
  "interpolationRemaining (renderFrames rate slerp bs m)
     = interpolationRemaining m - int (length bs)"
  by (induction bs rule: rev_induct)
    (simp_all add: renderFrames_snoc postUpdate_def moveBody_def split: prod.splits,
      simp add: renderFrames_def)

lemma interpolationStrength_renderFrames:
  "interpolationStrength (renderFrames rate slerp bs m) = interpolationStrength m"
  by (induction bs rule: rev_induct)
    (simp_all add: renderFrames_snoc postUpdate_def moveBody_def split: prod.splits,
      simp add: renderFrames_def)

lemma strength_bounds:
  assumes "0 < w"
  shows "0 < 1 - (1 - 0.99) powr (1 / real_of_int w)"
    and "1 - (1 - 0.99) powr (1 / real_of_int w) < (1::real)"
proof -
  have "(1 - 0.99 :: real) powr (1 / real_of_int w) < 1 powr (1 / real_of_int w)"
    using assms by (intro powr_less_mono2) simp_all
  then show "0 < 1 - (1 - 0.99) powr (1 / real_of_int w)" by simp
  show "1 - (1 - 0.99) powr (1 / real_of_int w) < (1::real)" by simp
qed

text \<open>
  C9, as the code has it. The correction window is \<open>max (2 * frameGap) 20\<close> frames:
  the gaps 2 and 5 both give 20 frames, so the window is neither proportional to the gap
  nor longer for the larger gap.
\<close>

theorem afterReconciliation_window_counterexample:
  "reconciliationPosition marble0 \<noteq> body_position marble0
   \<and> interpolationRemaining (afterReconciliation distanceTo 2 marble0) = 20
   \<and> interpolationRemaining (afterReconciliation distanceTo 5 marble0) = 20"
  by (simp add: afterReconciliation_def marble0_def distanceTo_def)

text \<open>
  C9, amended. When the distance of the corrected position from the position before the
  reconciliation is not 0 and no longer interpolation is in progress,
  \<^verbatim>\<open>afterReconciliation\<close> sets a window of \<open>max (2 * frameGap) 20\<close> frames and an
  interpolation strength strictly between 0 and 1. Every later \<^verbatim>\<open>postUpdate\<close>
  outside a reconciliation counts one frame down. In each of the frames of the window,
  wherever the body is by then, the interpolated position is moved from where it was
  towards the body's position by that strength, and the interpolated orientation is
  turned from what it was towards the body's orientation by that strength, instead of
  being copied; after the window both are copied from the body. A larger gap never gives
  a shorter window.
\<close>

theorem afterReconciliation_window:
  assumes "distance (reconciliationPosition m) (body_position m) \<noteq> 0"
    and "interpolationRemaining m \<le> max (frameGap * 2) 20"
  shows "interpolationRemaining (afterReconciliation distance frameGap m) = max (frameGap * 2) 20
    \<and> interpolationStrength (afterReconciliation distance frameGap m)
        = 1 - (1 - 0.99) powr (1 / real_of_int (max (frameGap * 2) 20))
    \<and> 0 < interpolationStrength (afterReconciliation distance frameGap m)
    \<and> interpolationStrength (afterReconciliation distance frameGap m) < 1
    \<and> (\<forall>bs. interpolationRemaining
               (renderFrames rate slerp bs (afterReconciliation distance frameGap m))
             = max (frameGap * 2) 20 - int (length bs))
    \<and> (\<forall>bs p q v. int (length bs) < max (frameGap * 2) 20 \<longrightarrow>
          interpolatedPosition
              (renderFrames rate slerp (bs @ [(p, q, v)]) (afterReconciliation distance frameGap m))
            = lerp (addScaledVector
                      (interpolatedPosition
                         (renderFrames rate slerp bs (afterReconciliation distance frameGap m)))
                      v (1 / rate))
                p (interpolationStrength (afterReconciliation distance frameGap m))
          \<and> interpolatedOrientation
              (renderFrames rate slerp (bs @ [(p, q, v)]) (afterReconciliation distance frameGap m))
            = slerp (interpolatedOrientation
                       (renderFrames rate slerp bs (afterReconciliation distance frameGap m)))
                q (interpolationStrength (afterReconciliation distance frameGap m)))
    \<and> (\<forall>bs p q v. max (frameGap * 2) 20 \<le> int (length bs) \<longrightarrow>
          interpolatedPosition
              (renderFrames rate slerp (bs @ [(p, q, v)]) (afterReconciliation distance frameGap m))
            = p
          \<and> interpolatedOrientation
              (renderFrames rate slerp (bs @ [(p, q, v)]) (afterReconciliation distance frameGap m))
            = q)
    \<and> (\<forall>g. frameGap \<le> g \<longrightarrow>
          interpolationRemaining (afterReconciliation distance frameGap m)
            \<le> interpolationRemaining (afterReconciliation distance g m))"
proof -
  let ?w = "max (frameGap * 2) 20"
  let ?m = "afterReconciliation distance frameGap m"
  have w: "0 < ?w" by simp
  have r: "interpolationRemaining ?m = ?w"
    using assms by (auto simp: afterReconciliation_def Let_def)
  have s: "interpolationStrength ?m = 1 - (1 - 0.99) powr (1 / real_of_int ?w)"
    using assms by (auto simp: afterReconciliation_def Let_def)
  have b: "0 < interpolationStrength ?m" "interpolationStrength ?m < 1"
    unfolding s using strength_bounds [OF w] by blast+
  have c: "interpolationRemaining (renderFrames rate slerp bs ?m) = ?w - int (length bs)" for bs
    by (simp only: interpolationRemaining_renderFrames r)
  have i: "interpolatedPosition (renderFrames rate slerp (bs @ [(p, q, v)]) ?m)
            = lerp (addScaledVector (interpolatedPosition (renderFrames rate slerp bs ?m))
                      v (1 / rate)) p (interpolationStrength ?m)
          \<and> interpolatedOrientation (renderFrames rate slerp (bs @ [(p, q, v)]) ?m)
            = slerp (interpolatedOrientation (renderFrames rate slerp bs ?m)) q
                (interpolationStrength ?m)"
    if "int (length bs) < ?w" for bs p q v
  proof -
    have "0 < interpolationRemaining (renderFrames rate slerp bs ?m)"
      unfolding c using that by simp
    then show ?thesis
      unfolding renderFrames_snoc
      by (simp add: postUpdate_def moveBody_def interpolationStrength_renderFrames)
  qed
  have e: "interpolatedPosition (renderFrames rate slerp (bs @ [(p, q, v)]) ?m) = p
          \<and> interpolatedOrientation (renderFrames rate slerp (bs @ [(p, q, v)]) ?m) = q"
    if "?w \<le> int (length bs)" for bs p q v
  proof -
    have "interpolationRemaining (renderFrames rate slerp bs ?m) \<le> 0"
      unfolding c using that by simp
    then show ?thesis
      unfolding renderFrames_snoc by (simp add: postUpdate_def moveBody_def)
  qed
  have g: "interpolationRemaining ?m \<le> interpolationRemaining (afterReconciliation distance g m)"
    if "frameGap \<le> g" for g
    unfolding r using assms that by (auto simp: afterReconciliation_def Let_def)
  from r s b c i e g show ?thesis by blast
qed

text \<open>
  The marble \<open>marble0\<close> after a reconciliation with frame gap 15, and two frames in
  which the body rests at its position.
\<close>

theorem afterReconciliation_window_witness:
  "distanceTo (reconciliationPosition marble0) (body_position marble0) \<noteq> 0
   \<and> interpolationRemaining marble0 \<le> max (15 * 2) 20
   \<and> interpolationRemaining (afterReconciliation distanceTo 15 marble0) = 30
   \<and> interpolationRemaining
        (renderFrames 120 (\<lambda>a b t. b) [((1, 0, 0), (), (0, 0, 0)), ((1, 0, 0), (), (0, 0, 0))]
           (afterReconciliation distanceTo 15 marble0)) = 28
   \<and> interpolationRemaining (afterReconciliation distanceTo 15 marble0)
        \<le> interpolationRemaining (afterReconciliation distanceTo 16 marble0)"
proof -
  have h1: "distanceTo (reconciliationPosition marble0) (body_position marble0) \<noteq> 0"
    by (simp add: marble0_def distanceTo_def)
  have h2: "interpolationRemaining marble0 \<le> max (15 * 2) 20"
    by (simp add: marble0_def)
  note t = afterReconciliation_window [where distance = distanceTo and m = marble0
      and frameGap = 15 and rate = 120 and slerp = "\<lambda>a b t. b", OF h1 h2]
  from t have "interpolationRemaining
        (renderFrames 120 (\<lambda>a b t. b) [((1, 0, 0), (), (0, 0, 0)), ((1, 0, 0), (), (0, 0, 0))]
           (afterReconciliation distanceTo 15 marble0)) = max (15 * 2) 20 - int (length
             [((1::real, 0::real, 0::real), (), (0::real, 0::real, 0::real)),
              ((1, 0, 0), (), (0, 0, 0))])"
    by blast
  moreover from t have "\<forall>g. 15 \<le> g \<longrightarrow>
          interpolationRemaining (afterReconciliation distanceTo 15 marble0)
            \<le> interpolationRemaining (afterReconciliation distanceTo g marble0)"
    by blast
  then have "interpolationRemaining (afterReconciliation distanceTo 15 marble0)
            \<le> interpolationRemaining (afterReconciliation distanceTo 16 marble0)"
    by simp
  ultimately show ?thesis using t h1 h2 by simp
qed

section \<open>Properties of the frame state\<close>

subsection \<open>Rolling back the message queues\<close>

text \<open>
  C3, at a state of frame 5 whose affection graph, help messages and alerts each hold a
  record of frame 2 and one of frame 4. Rolling back to frame 3 drops the edge and the
  alert of frame 4; the help message of frame 4 stays.
\<close>

theorem rollBackToFrame_keeps_help_message:
  "map_sum id (\<lambda>s. (frame s, map edge_frame (affectionGraph s),
       map m_frame (alerts (the_hud s)), map m_frame (helpMessages (the_hud s))))
     (rollBackToFrame hooks0 3 messages5) = Inr (3, [2], [2], [2, 4])"
  by (simp add: rollBackToFrame_def rollBackQueues_def messages5_def initialState_def popAfter_def
      saveStates_def)

subsection \<open>The frame counter\<close>

lemma forEach_preserves:
  assumes "\<And>x s s'. P s \<Longrightarrow> body x s = Inr s' \<Longrightarrow> P s'"
  shows "P s \<Longrightarrow> forEach body xs s = Inr s' \<Longrightarrow> P s'"
proof (induction xs arbitrary: s)
  case Nil
  then show ?case by simp
next
  case (Cons x xs)
  then show ?case using assms by (auto split: sum.splits)
qed

lemma frame_saveStates_external: "frame (saveStates_external h i s) = frame s"
  by (simp add: saveStates_external_def Let_def)

lemma frame_saveStates_internal: "frame (saveStates_internal h i s) = frame s"
  by (simp add: saveStates_internal_def Let_def)

lemma frame_fold_save:
  "frame (fold (\<lambda>i s'. saveStates_internal h i (saveStates_external h i s')) is s) = frame s"
  by (induction "is" arbitrary: s)
    (simp_all add: frame_saveStates_external frame_saveStates_internal)

lemma frame_saveStates: "frame (saveStates h s) = frame s"
  by (simp add: saveStates_def frame_fold_save)

lemma frame_rollBackInternal: "rollBackInternal h t k s = Inr s' \<Longrightarrow> frame s' = frame s"
  by (auto simp: rollBackInternal_def Let_def split: if_splits option.splits)

lemma frame_rollBackEntityToFrame:
  "rollBackEntityToFrame h e t s = Inr s' \<Longrightarrow> frame s' = frame s"
  by (auto simp: rollBackEntityToFrame_def Let_def split: if_splits option.splits)

lemma rollBackToFrame_steps:
  assumes "rollBackToFrame h t s = Inr s'" and "t \<noteq> frame s"
  obtains s5 s6 where
    "forEach (rollBackInternal h t) (map fst (internalStateHistory (rollBackQueues t s)))
       (rollBackQueues t s) = Inr s5"
    and "forEach (\<lambda>entId s'. rollBackEntityToFrame h (getEntityById s' entId) t s')
              (map fst (stateHistory s5)) s5 = Inr s6"
    and "s' = saveStates h s6"
  using assms by (auto simp: rollBackToFrame_def Let_def split: sum.splits)

lemma frame_rollBackQueues: "frame (rollBackQueues t s) = t"
  by (simp add: rollBackQueues_def Let_def)

lemma frame_rollBackToFrame:
  assumes "rollBackToFrame h t s = Inr s'"
  shows "frame s' = t"
proof (cases "t = frame s")
  case True
  with assms show ?thesis by (simp add: rollBackToFrame_def)
next
  case False
  from rollBackToFrame_steps [OF assms False] obtain s5 s6 where
    a: "forEach (rollBackInternal h t) (map fst (internalStateHistory (rollBackQueues t s)))
          (rollBackQueues t s) = Inr s5"
    and b: "forEach (\<lambda>entId s'. rollBackEntityToFrame h (getEntityById s' entId) t s')
              (map fst (stateHistory s5)) s5 = Inr s6"
    and c: "s' = saveStates h s6"
    by blast
  have s5: "frame s5 = t"
    by (rule forEach_preserves [where P = "\<lambda>s. frame s = t", OF _ frame_rollBackQueues a])
      (simp add: frame_rollBackInternal)
  have "frame s6 = t"
    by (rule forEach_preserves [where P = "\<lambda>s. frame s = t", OF _ s5 b])
      (simp add: frame_rollBackEntityToFrame)
  with c show ?thesis by (simp add: frame_saveStates)
qed

text \<open>
  C5. \<^verbatim>\<open>rollBackToFrame(target)\<close> returns the state unchanged when \<open>target\<close> is
  the current frame; and a call that returns leaves a state on which the same call again
  changes nothing.
\<close>

theorem rollBackToFrame_idempotent:
  "(frame s = target \<longrightarrow> rollBackToFrame h target s = Inr s)
   \<and> (rollBackToFrame h target s = Inr s' \<longrightarrow> rollBackToFrame h target s' = Inr s')"
proof -
  have "rollBackToFrame h target s' = Inr s'" if "rollBackToFrame h target s = Inr s'"
    using frame_rollBackToFrame [OF that] by (simp add: rollBackToFrame_def)
  then show ?thesis by (simp add: rollBackToFrame_def)
qed

theorem rollBackToFrame_idempotent_witness:
  "frame (messages5\<lparr>frame := 3\<rparr>) = 3
   \<and> rollBackToFrame hooks0 3 (messages5\<lparr>frame := 3\<rparr>) = Inr (messages5\<lparr>frame := 3\<rparr>)
   \<and> (\<exists>s'. rollBackToFrame hooks0 3 messages5 = Inr s' \<and> rollBackToFrame hooks0 3 s' = Inr s')"
proof -
  have a: "frame (messages5\<lparr>frame := 3\<rparr>) = 3" by simp
  obtain s' where b: "rollBackToFrame hooks0 3 messages5 = Inr s'"
    by (simp add: rollBackToFrame_def rollBackQueues_def messages5_def initialState_def
        popAfter_def saveStates_def)
  from a b rollBackToFrame_idempotent [of "messages5\<lparr>frame := 3\<rparr>" 3 hooks0]
    rollBackToFrame_idempotent [of messages5 3 hooks0 s']
  show ?thesis by blast
qed

subsection \<open>The last update of an entity\<close>

lemma Util_findLast_filter:
  "Util_findLast xs p = (if filter p xs = [] then None else Some (last (filter p xs)))"
  unfolding Util_findLast_def
  by (induction xs rule: rev_induct) auto

lemma lastRestartFrame_loop_takeWhile:
  "lastRestartFrame_loop fr rs acc =
     (if takeWhile (\<lambda>r. r \<le> fr) rs = [] then acc else Some (last (takeWhile (\<lambda>r. r \<le> fr) rs)))"
  by (induction rs arbitrary: acc) auto

lemma sorted_takeWhile_filter:
  "sorted rs \<Longrightarrow> takeWhile (\<lambda>r. r \<le> fr) rs = filter (\<lambda>r. r \<le> (fr::int)) rs"
  by (induction rs) (auto intro!: filter_False [symmetric])

lemma sorted_last_Max: "sorted xs \<Longrightarrow> xs \<noteq> [] \<Longrightarrow> last xs = Max (set (xs::int list))"
proof (induction xs)
  case Nil
  then show ?case by simp
next
  case (Cons x xs)
  show ?case
  proof (cases "xs = []")
    case True
    then show ?thesis by simp
  next
    case False
    with Cons have "last xs = Max (set xs)" by simp
    moreover have "x \<le> Max (set xs)"
      using Cons.prems(1) False by (metis List.finite_set Max_ge dual_order.trans last_in_set
          sorted_simps(2))
    ultimately show ?thesis using False by (simp add: max_def)
  qed
qed

text \<open>
  C2, as the code has it. The game is at frame 10 and restarted at frame 8; entity 1 is
  restartable and has one update, of frame 3. Asked for the last update up to frame 5,
  where no restart is at or before frame 5, the code does not return the update of frame
  3: it returns the initial update, pinned to the restart frame 8 of the current frame.
\<close>

theorem getLastEntityUpdate_counterexample:
  "getLastEntityUpdate (dirty 1 0) 5 restarted10
     = \<lparr>updateId = - 1, entityId = 1, u_frame = 8, u_state = None\<rparr>
   \<and> filter (\<lambda>u. u_frame u \<le> 5) (dm_get (stateHistory restarted10) 1) = [update3]
   \<and> filter (\<lambda>r. r \<le> 5) (restartFrames restarted10) = []
   \<and> filter (\<lambda>r. r \<le> frame restarted10) (restartFrames restarted10) = [8]"
  by (simp add: getLastEntityUpdate_def restarted10_def initialState_def dirty_def update3_def
      dm_get_def Util_findLast_def lastRestartFrame_def createInitialUpdate_def)

text \<open>
  C2, amended. \<^verbatim>\<open>getLastEntityUpdate(entity, upToFrame)\<close> finds the last recorded
  update whose frame is at most \<open>upToFrame\<close>, or the initial update (id -1, frame 0,
  no state) when there is none. The restart frame it compares with is the one the getter
  \<^verbatim>\<open>lastRestartFrame\<close> reads off the current frame of the game state: the last of
  the restart frames that come before the first one beyond the current frame. If there
  is such a restart frame, the entity is restartable and the frame of what was found is
  earlier, the initial update with that restart frame is returned instead.
\<close>

theorem getLastEntityUpdate_spec:
  "getLastEntityUpdate e upToFrame s =
     (let before = filter (\<lambda>u. u_frame u \<le> upToFrame) (dm_get (stateHistory s) (ent_id e));
          found = (if before = []
                   then \<lparr>updateId = - 1, entityId = ent_id e, u_frame = 0, u_state = None\<rparr>
                   else last before);
          restarts = takeWhile (\<lambda>r. r \<le> frame s) (restartFrames s)
      in if restartable e \<and> restarts \<noteq> [] \<and> u_frame found < last restarts
         then \<lparr>updateId = - 1, entityId = ent_id e, u_frame = last restarts, u_state = None\<rparr>
         else found)"
  by (simp add: getLastEntityUpdate_def Util_findLast_filter lastRestartFrame_def
      lastRestartFrame_loop_takeWhile createInitialUpdate_def Let_def)

text \<open>
  At \<open>rewound5\<close>, whose restart frames are 10 and 3: at frame 5 the scan stops at the
  restart frame 10, so no restart frame is read and the update of frame 1 is returned,
  although the game restarted at frame 3; at frame 12 the restart frame read is 3, the
  last of the list, and it replaces the update of frame 1 but not the update of frame 3.
\<close>

theorem getLastEntityUpdate_spec_witness:
  "getLastEntityUpdate (dirty 1 0) 2 rewound5 = update1
   \<and> getLastEntityUpdate (dirty 1 0) 2 (rewound5\<lparr>frame := 12\<rparr>)
       = \<lparr>updateId = - 1, entityId = 1, u_frame = 3, u_state = None\<rparr>
   \<and> getLastEntityUpdate (dirty 1 0) 12 (rewound5\<lparr>frame := 12\<rparr>) = update3\<lparr>updateId := 1\<rparr>
   \<and> getLastEntityUpdate ((dirty 1 0)\<lparr>restartable := False\<rparr>) 2 (rewound5\<lparr>frame := 12\<rparr>)
       = update1
   \<and> getLastEntityUpdate (dirty 1 0) 0 rewound5
       = \<lparr>updateId = - 1, entityId = 1, u_frame = 0, u_state = None\<rparr>"
  using getLastEntityUpdate_spec [of "dirty 1 0" 2 rewound5]
    getLastEntityUpdate_spec [of "dirty 1 0" 2 "rewound5\<lparr>frame := 12\<rparr>"]
    getLastEntityUpdate_spec [of "dirty 1 0" 12 "rewound5\<lparr>frame := 12\<rparr>"]
    getLastEntityUpdate_spec [of "(dirty 1 0)\<lparr>restartable := False\<rparr>" 2 "rewound5\<lparr>frame := 12\<rparr>"]
    getLastEntityUpdate_spec [of "dirty 1 0" 0 rewound5]
  by (simp add: rewound5_def initialState_def dirty_def update1_def update3_def dm_get_def)

text \<open>
  When the restart frames are in increasing order, the restart frame read is the
  greatest one at or before the current frame.
\<close>

lemma lastRestartFrame_sorted:
  assumes "sorted (restartFrames s)"
  shows "lastRestartFrame s =
     (if filter (\<lambda>r. r \<le> frame s) (restartFrames s) = [] then None
      else Some (Max (set (filter (\<lambda>r. r \<le> frame s) (restartFrames s)))))"
proof -
  let ?rs = "filter (\<lambda>r. r \<le> frame s) (restartFrames s)"
  have "sorted ?rs" using assms by (rule sorted_wrt_filter)
  then have m: "?rs \<noteq> [] \<Longrightarrow> last ?rs = Max (set ?rs)"
    by (rule sorted_last_Max)
  then show ?thesis
    by (simp add: lastRestartFrame_def lastRestartFrame_loop_takeWhile
        sorted_takeWhile_filter [OF assms])
qed

subsection \<open>Strictly increasing histories\<close>




























subsection \<open>Storing an entity again\<close>









subsection \<open>Calls that throw\<close>

lemma rollBackToFrame_after_returned:
  "rollBackToFrame h target s = Inr s' \<Longrightarrow> rollBackToFrame_after h target s = s'"
  by (auto simp: rollBackToFrame_def rollBackToFrame_after_def Let_def
      split: if_splits sum.splits)

lemma step_caught_returned: "step h x s = Inr s' \<Longrightarrow> step_caught h x s = s'"
  by (cases x) (simp_all add: rollBackToFrame_after_returned)

lemma run_caught_returned: "run h ops s = Inr s' \<Longrightarrow> run_caught h ops s = s'"
  unfolding run_def run_caught_def
  by (induction ops arbitrary: s) (auto split: sum.splits simp: step_caught_returned)






subsection \<open>Termination of the causality propagation\<close>

lemma visit_mono:
  assumes "\<And>x a b. f x a = Some b \<Longrightarrow> f' x a = Some b"
  shows "visit f xs e a = Some b \<Longrightarrow> visit f' xs e a = Some b"
  using assms by (induction xs arbitrary: a) (auto split: option.splits if_splits)

lemma propagate_Suc:
  "propagate n g e1 e a = Some b \<Longrightarrow> propagate (Suc n) g e1 e a = Some b"
proof (induction n arbitrary: e a b)
  case 0
  then show ?case by simp
next
  case (Suc n)
  show ?case
  proof (cases "a e1 |\<subseteq>| a e")
    case True
    with Suc.prems show ?thesis by simp
  next
    case False
    with Suc.prems have "visit (propagate n g e1) g e (a(e := a e |\<union>| a e1)) = Some b"
      by (simp add: Let_def)
    then have "visit (propagate (Suc n) g e1) g e (a(e := a e |\<union>| a e1)) = Some b"
      by (rule visit_mono [rotated]) (rule Suc.IH)
    with False show ?thesis by (simp add: Let_def)
  qed
qed

lemma propagate_mono:
  "n \<le> m \<Longrightarrow> propagate n g e1 e a = Some b \<Longrightarrow> propagate m g e1 e a = Some b"
  by (induction m) (auto simp: le_Suc_eq dest: propagate_Suc simp del: propagate.simps)

lemma grows_refl: "grows e1 a a"
  by (simp add: grows_def)

lemma grows_trans: "grows e1 a b \<Longrightarrow> grows e1 b c \<Longrightarrow> grows e1 a c"
  by (auto simp: grows_def)

lemma visit_grows:
  assumes "\<And>x a b. f x a = Some b \<Longrightarrow> grows e1 a b"
  shows "visit f xs e a = Some b \<Longrightarrow> grows e1 a b"
proof (induction xs arbitrary: a)
  case Nil
  then show ?case by (simp add: grows_refl)
next
  case (Cons x xs)
  show ?case
  proof (cases "edge_from x = e")
    case True
    with Cons.prems obtain a' where
      f: "f (edge_to x) a = Some a'" and r: "visit f xs e a' = Some b"
      by (auto split: option.splits)
    from assms [OF f] Cons.IH [OF r] show ?thesis by (rule grows_trans)
  next
    case False
    with Cons show ?thesis by simp
  qed
qed

lemma propagate_grows: "propagate n g e1 e a = Some b \<Longrightarrow> grows e1 a b"
proof (induction n arbitrary: e a b)
  case 0
  then show ?case by simp
next
  case (Suc n)
  have first: "grows e1 a (a(e := a e |\<union>| a e1))"
    by (auto simp: grows_def)
  show ?case
  proof (cases "a e1 |\<subseteq>| a e")
    case True
    with Suc.prems first show ?thesis by auto
  next
    case False
    with Suc.prems have "visit (propagate n g e1) g e (a(e := a e |\<union>| a e1)) = Some b"
      by (simp add: Let_def)
    then have "grows e1 (a(e := a e |\<union>| a e1)) b"
      by (rule visit_grows [rotated]) (rule Suc.IH)
    with first show ?thesis by (rule grows_trans)
  qed
qed

lemma missing_mono: "grows e1 a b \<Longrightarrow> missing g e1 b \<le> missing g e1 a"
  unfolding missing_def grows_def
  by (intro sum_mono fcard_mono) auto

lemma missing_less:
  assumes "e \<in> edge_to ` set g" and "\<not> a e1 |\<subseteq>| a e"
  shows "missing g e1 (a(e := a e |\<union>| a e1)) < missing g e1 a"
proof -
  have ne: "e \<noteq> e1" using assms(2) by auto
  let ?b = "a(e := a e |\<union>| a e1)"
  have b1: "?b e1 = a e1" using ne by simp
  have "(\<Sum>x \<in> edge_to ` set g. fcard (a e1 |-| ?b x)) < (\<Sum>x \<in> edge_to ` set g. fcard (a e1 |-| a x))"
  proof (rule sum_strict_mono_ex1)
    show "finite (edge_to ` set g)" by simp
    show "\<forall>x \<in> edge_to ` set g. fcard (a e1 |-| ?b x) \<le> fcard (a e1 |-| a x)"
      by (auto intro!: fcard_mono)
    have "a e1 |-| a e \<noteq> {||}" using assms(2) by auto
    then have "0 < fcard (a e1 |-| a e)"
      by (metis fcard_fempty bot_nat_0.not_eq_extremum fcard_0_eq)
    moreover have "a e1 |-| ?b e = {||}" by auto
    then have "fcard (a e1 |-| ?b e) = 0" by (simp only: fcard_fempty)
    ultimately have "fcard (a e1 |-| ?b e) < fcard (a e1 |-| a e)" by (simp only:)
    with assms(1) show "\<exists>x \<in> edge_to ` set g. fcard (a e1 |-| ?b x) < fcard (a e1 |-| a x)"
      by blast
  qed
  then show ?thesis unfolding missing_def b1 .

qed

lemma visit_terminates:
  assumes ih: "\<And>x a'. x \<in> edge_to ` set g \<Longrightarrow> missing g e1 a' \<le> m
      \<Longrightarrow> \<exists>n b. propagate n g e1 x a' = Some b"
  shows "set xs \<subseteq> set g \<Longrightarrow> missing g e1 a \<le> m
      \<Longrightarrow> \<exists>n b. visit (propagate n g e1) xs e a = Some b"
proof (induction xs arbitrary: a)
  case Nil
  then show ?case by simp
next
  case (Cons x xs)
  show ?case
  proof (cases "edge_from x = e")
    case False
    with Cons show ?thesis by simp
  next
    case True
    from Cons.prems have "edge_to x \<in> edge_to ` set g" by auto
    from ih [OF this Cons.prems(2)] obtain n1 b1 where
      p: "propagate n1 g e1 (edge_to x) a = Some b1" by blast
    have "missing g e1 b1 \<le> missing g e1 a"
      using propagate_grows [OF p] by (rule missing_mono)
    with Cons.prems have "missing g e1 b1 \<le> m" by simp
    with Cons.IH Cons.prems obtain n2 b2 where
      v: "visit (propagate n2 g e1) xs e b1 = Some b2" by fastforce
    have "propagate (max n1 n2) g e1 (edge_to x) a = Some b1"
      using p by (rule propagate_mono [rotated]) simp
    moreover have "visit (propagate (max n1 n2) g e1) xs e b1 = Some b2"
    proof (rule visit_mono [OF _ v])
      fix x a b
      assume "propagate n2 g e1 x a = Some b"
      then show "propagate (max n1 n2) g e1 x a = Some b"
        by (rule propagate_mono [rotated]) simp
    qed
    ultimately have "visit (propagate (max n1 n2) g e1) (x # xs) e a = Some b2"
      using True by simp
    then show ?thesis by blast
  qed
qed

lemma propagate_terminates:
  "e \<in> edge_to ` set g \<Longrightarrow> \<exists>n b. propagate n g e1 e a = Some b"
proof (induction "missing g e1 a" arbitrary: a e rule: less_induct)
  case less
  show ?case
  proof (cases "a e1 |\<subseteq>| a e")
    case True
    then have "propagate (Suc 0) g e1 e a = Some (a(e := a e |\<union>| a e1))" by simp
    then show ?thesis by blast
  next
    case False
    let ?a' = "a(e := a e |\<union>| a e1)"
    have lt: "missing g e1 ?a' < missing g e1 a"
      using less.prems False by (rule missing_less)
    have "\<exists>n b. visit (propagate n g e1) g e ?a' = Some b"
    proof (rule visit_terminates [where m = "missing g e1 ?a'"])
      fix x a''
      assume "x \<in> edge_to ` set g" "missing g e1 a'' \<le> missing g e1 ?a'"
      then show "\<exists>n b. propagate n g e1 x a'' = Some b"
        using less.hyps [of a'' x] lt by simp
    qed simp_all
    then obtain n b where "visit (propagate n g e1) g e ?a' = Some b" by blast
    with False have "propagate (Suc n) g e1 e a = Some b" by (simp add: Let_def)
    then show ?thesis by blast
  qed
qed

text \<open>
  C8. \<^verbatim>\<open>recordEntityInteraction(e1, e2)\<close> returns for every affection graph, cyclic
  or not, and every assignment of finite player sets: some recursion depth suffices, and
  every larger one gives the same result. The recursion descends from a node only after
  adding a player to it, which decreases the number of players missing at the targets of
  the edges.
\<close>

theorem recordEntityInteraction_terminates:
  "\<exists>fuel r. \<forall>n \<ge> fuel. recordEntityInteraction n e1 e2 (s, a) = Some r"
proof -
  let ?g = "affectionGraph s @
      [\<lparr>edge_id = nextAffectionEdgeId s, edge_from = e1, edge_to = e2, edge_frame = frame s\<rparr>]"
  have "e2 \<in> edge_to ` set ?g" by simp
  from propagate_terminates [OF this] obtain fuel b where
    p: "propagate fuel ?g e1 e2 a = Some b" by blast
  have "propagate n ?g e1 e2 a = Some b" if "fuel \<le> n" for n
    using that p by (rule propagate_mono)
  then show ?thesis
    by (auto simp: recordEntityInteraction_def Let_def)
qed

theorem recordEntityInteraction_terminates_witness:
  "\<exists>fuel r. recordEntityInteraction fuel 3 1 (cyclic, players0) = Some r
     \<and> recordEntityInteraction (Suc fuel) 3 1 (cyclic, players0) = Some r"
proof -
  from recordEntityInteraction_terminates [of 3 1 cyclic players0] obtain fuel r where
    "\<forall>n \<ge> fuel. recordEntityInteraction n 3 1 (cyclic, players0) = Some r"
    by blast
  then have "recordEntityInteraction fuel 3 1 (cyclic, players0) = Some r
     \<and> recordEntityInteraction (Suc fuel) 3 1 (cyclic, players0) = Some r"
    by simp
  then show ?thesis by blast
qed

text \<open>
  On the cyclic graph, an interaction of entity 3 with entity 1 carries player 5 to
  entity 1, on to entity 2, and stops when it comes back to entity 1.
\<close>

lemma recordEntityInteraction_cyclic:
  "map_option (\<lambda>(s, a). (map edge_id (affectionGraph s), a 1, a 2, a 3))
     (recordEntityInteraction 3 3 1 (cyclic, players0))
   = Some ([0, 1, 2], {|5, 7, 8|}, {|5, 9|}, {|5|})"
  by (simp add: recordEntityInteraction_def cyclic_def initialState_def players0_def
      numeral_3_eq_3 Let_def)

end
